theory Spec2Isabelle
  imports Main
begin

section \<open>JavaScript values, objects and the heap\<close>

text \<open>
  The class \<open>Form\<close> of \<open>src/Form.ts\<close> keeps its bound fields as own properties of the
  instance, next to the control members \<open>originalData\<close>, \<open>busy\<close>, \<open>successful\<close> and
  \<open>errors\<close>, and it hands object references to its callers. Several properties of the
  class depend on which objects are shared, so objects live in an explicit heap: a value is
  a primitive or a reference, an object is a class tag with its own enumerable properties
  in insertion order, and the heap is the list of the objects allocated so far (an address
  is an index; allocation appends).

  Scope of the model: numbers are integers; strings are lists of code units; a property
  read consults own enumerable properties only (members inherited from \<open>Object.prototype\<close>
  or \<open>Array.prototype\<close>, an array's \<open>length\<close> included, are not represented, and the
  field names of a form are taken not to name a method of the class); integer-like keys are
  listed in insertion order like every other key.
\<close>

type_synonym addr = nat

datatype prim = JUndefined | JNull | JBool bool | JNum int | JStr string

datatype val = Prim prim | Ref addr

datatype cls = PlainObject | ArrayObject | ErrorsObject | FormObject

type_synonym props = "(string \<times> val) list"

record obj =
  cls :: cls
  props :: props

type_synonym heap = "obj list"

datatype error = TypeError | URIError | RangeError | Unmodelled

definition bind_e :: "error + 'a \<Rightarrow> ('a \<Rightarrow> error + 'b) \<Rightarrow> error + 'b" where
  "bind_e m f = (case m of Inl e \<Rightarrow> Inl e | Inr x \<Rightarrow> f x)"

text \<open>\<open>o[k] = v\<close> on the property list of an object: an existing key keeps its place.\<close>

fun set_prop :: "props \<Rightarrow> string \<Rightarrow> val \<Rightarrow> props" where
  "set_prop [] k v = [(k, v)]"
| "set_prop ((k', v') # ps) k v =
     (if k' = k then (k, v) # ps else (k', v') # set_prop ps k v)"

text \<open>\<open>Object.assign(target, source)\<close> and the object spread, on property lists.\<close>

definition object_assign :: "props \<Rightarrow> props \<Rightarrow> props" where
  "object_assign target source = fold (\<lambda>(k, v) t. set_prop t k v) source target"

definition alloc :: "heap \<Rightarrow> obj \<Rightarrow> heap \<times> addr" where
  "alloc h ob = (h @ [ob], length h)"

definition get_own :: "heap \<Rightarrow> addr \<Rightarrow> string \<Rightarrow> val" where
  "get_own h a k = (case map_of (props (h ! a)) k of Some v \<Rightarrow> v | None \<Rightarrow> Prim JUndefined)"

definition heap_write :: "heap \<Rightarrow> addr \<Rightarrow> string \<Rightarrow> val \<Rightarrow> heap" where
  "heap_write h a k v = h[a := (h ! a)\<lparr>props := set_prop (props (h ! a)) k v\<rparr>]"

fun truthy :: "val \<Rightarrow> bool" where
  "truthy (Prim JUndefined) = False"
| "truthy (Prim JNull) = False"
| "truthy (Prim (JBool b)) = b"
| "truthy (Prim (JNum n)) = (n \<noteq> 0)"
| "truthy (Prim (JStr s)) = (s \<noteq> [])"
| "truthy (Ref a) = True"

text \<open>\<open>typeof v === 'object'\<close>: every object, and \<open>null\<close>.\<close>

fun typeof_object :: "val \<Rightarrow> bool" where
  "typeof_object (Ref a) = True"
| "typeof_object (Prim JNull) = True"
| "typeof_object (Prim p) = False"

definition digit_char :: "nat \<Rightarrow> char" where
  "digit_char d = char_of (48 + d)"

fun show_nat :: "nat \<Rightarrow> string" where
  "show_nat n = (if n < 10 then [digit_char n] else show_nat (n div 10) @ [digit_char (n mod 10)])"


text \<open>The own enumerable properties of a value, as a spread or \<open>Object.assign\<close> reads
  them: those of an object; the code units of a string under their indices; none of any
  other primitive.\<close>

fun own_enum :: "heap \<Rightarrow> val \<Rightarrow> props" where
  "own_enum h (Ref a) = props (h ! a)"
| "own_enum h (Prim (JStr s)) = map (\<lambda>i. (show_nat i, Prim (JStr [s ! i]))) [0..<length s]"
| "own_enum h (Prim p) = []"

text \<open>The property read \<open>v[k]\<close>: a \<open>TypeError\<close> on \<open>undefined\<close> and \<open>null\<close>.\<close>

fun get_prop :: "heap \<Rightarrow> val \<Rightarrow> string \<Rightarrow> error + val" where
  "get_prop h (Ref a) k = Inr (get_own h a k)"
| "get_prop h (Prim JUndefined) k = Inl TypeError"
| "get_prop h (Prim JNull) k = Inl TypeError"
| "get_prop h (Prim (JStr s)) k =
     (if k = ''length'' then Inr (Prim (JNum (int (length s))))
      else (case map_of (own_enum h (Prim (JStr s))) k of
              Some v \<Rightarrow> Inr v | None \<Rightarrow> Inr (Prim JUndefined)))"
| "get_prop h (Prim p) k = Inr (Prim JUndefined)"

section \<open>The deep copy of \<open>util.ts\<close>\<close>

text \<open>
  A value denotes a tree when the objects reachable from it are finite in depth. \<open>reify\<close>
  reads the tree, with the nesting depth the engine's stack allows as fuel: it has no
  result on a cyclic or too deeply nested value. \<open>build\<close> allocates a tree as fresh
  objects.
\<close>

datatype tree = TPrim prim | TObj cls "(string \<times> tree) list"

fun reify :: "nat \<Rightarrow> heap \<Rightarrow> val \<Rightarrow> tree option"
  and reify_props :: "nat \<Rightarrow> heap \<Rightarrow> props \<Rightarrow> (string \<times> tree) list option" where
  "reify n h (Prim p) = Some (TPrim p)"
| "reify 0 h (Ref a) = None"
| "reify (Suc n) h (Ref a) =
     (if a < length h
      then map_option (TObj (cls (h ! a))) (reify_props n h (props (h ! a)))
      else None)"
| "reify_props n h [] = Some []"
| "reify_props n h ((k, v) # ps) =
     (case reify n h v of
        None \<Rightarrow> None
      | Some t \<Rightarrow> map_option ((#) (k, t)) (reify_props n h ps))"

fun build :: "heap \<Rightarrow> tree \<Rightarrow> heap \<times> val"
  and build_props :: "heap \<Rightarrow> (string \<times> tree) list \<Rightarrow> heap \<times> props" where
  "build h (TPrim p) = (h, Prim p)"
| "build h (TObj c ts) =
     (case build_props h ts of
        (h', ps) \<Rightarrow> (h' @ [\<lparr>cls = c, props = ps\<rparr>], Ref (length h')))"
| "build_props h [] = (h, [])"
| "build_props h ((k, t) # ts) =
     (case build h t of
        (h1, v) \<Rightarrow> (case build_props h1 ts of (h2, ps) \<Rightarrow> (h2, (k, v) # ps)))"

text \<open>Modelled from the spec: \<open>deepCopy\<close> of \<open>util.ts\<close>, which is not among the sources.
  The spec gives it as a pure function returning an independent structural copy; the copy
  of a primitive is the primitive. A value without a finite structure exhausts the stack.\<close>

definition deepCopy :: "nat \<Rightarrow> heap \<Rightarrow> val \<Rightarrow> error + heap \<times> val" where
  "deepCopy n h v = (case reify n h v of None \<Rightarrow> Inl RangeError | Some t \<Rightarrow> Inr (build h t))"

section \<open>The error set of \<open>Errors.ts\<close>\<close>

text \<open>Modelled from the spec: the class \<open>Errors\<close> of \<open>Errors.ts\<close>, which is not among the
  sources. An instance owns one mapping \<open>messages\<close> from field names to messages, empty
  when the instance is created.\<close>

definition new_Errors :: "heap \<Rightarrow> heap \<times> addr" where
  "new_Errors h =
     (case alloc h \<lparr>cls = PlainObject, props = []\<rparr> of
        (h1, m) \<Rightarrow> alloc h1 \<lparr>cls = ErrorsObject, props = [(''messages'', Ref m)]\<rparr>)"


text \<open>Modelled from the spec: \<open>Errors.clear()\<close> without a field, which empties the whole
  mapping.\<close>

definition Errors_clear :: "heap \<Rightarrow> addr \<Rightarrow> heap" where
  "Errors_clear h e =
     (case alloc h \<lparr>cls = PlainObject, props = []\<rparr> of
        (h1, m) \<Rightarrow> heap_write h1 e ''messages'' (Ref m))"

section \<open>The class \<open>Form\<close>\<close>

text \<open>The static members: the route table and the default error message.\<close>

record statics =
  routes :: "(string \<times> string) list"
  errorMessage :: string

definition default_statics :: statics where
  "default_statics =
     \<lparr>routes = [], errorMessage = ''Something went wrong. Please try again.''\<rparr>"

definition ignore :: "string list" where
  "ignore = [''busy'', ''successful'', ''errors'', ''originalData'']"

definition keys :: "heap \<Rightarrow> addr \<Rightarrow> string list" where
  "keys h this = filter (\<lambda>key. key \<notin> set ignore) (map fst (props (h ! this)))"

text \<open>\<open>data()\<close>: the reduction starts from \<open>{}\<close> and spreads the accumulator into a new
  object at every key; the accumulators are garbage, the last one is the result.\<close>

definition data_props :: "heap \<Rightarrow> addr \<Rightarrow> props" where
  "data_props h this =
     fold (\<lambda>key d. set_prop (object_assign [] d) key (get_own h this key)) (keys h this) []"

definition data :: "heap \<Rightarrow> addr \<Rightarrow> heap \<times> addr" where
  "data h this = alloc h \<lparr>cls = PlainObject, props = data_props h this\<rparr>"

text \<open>\<open>update(data)\<close>: the baseline becomes a new object holding the old baseline overlaid
  with a deep copy of \<open>data\<close>; then the entries of \<open>data\<close> themselves are assigned onto the
  instance.\<close>

definition update :: "nat \<Rightarrow> heap \<Rightarrow> addr \<Rightarrow> val \<Rightarrow> error + heap" where
  "update n h this d =
     bind_e (deepCopy n h d) (\<lambda>(h1, c).
       case alloc h1 \<lparr>cls = PlainObject,
                      props = object_assign
                                (object_assign [] (own_enum h1 (get_own h1 this ''originalData'')))
                                (own_enum h1 c)\<rparr> of
         (h2, od) \<Rightarrow>
           let h3 = heap_write h2 this ''originalData'' (Ref od) in
           Inr (h3[this := (h3 ! this)\<lparr>props := object_assign (props (h3 ! this)) (own_enum h3 d)\<rparr>]))"

text \<open>The constructor: the field initialisers of the class, then \<open>this.update(data)\<close>.\<close>

definition new_Form :: "nat \<Rightarrow> heap \<Rightarrow> val \<Rightarrow> error + heap \<times> addr" where
  "new_Form n h d =
     (case alloc h \<lparr>cls = PlainObject, props = []\<rparr> of
        (h1, od) \<Rightarrow>
          (case new_Errors h1 of
             (h2, e) \<Rightarrow>
               (case alloc h2 \<lparr>cls = FormObject,
                               props = [(''originalData'', Ref od),
                                        (''busy'', Prim (JBool False)),
                                        (''successful'', Prim (JBool False)),
                                        (''errors'', Ref e)]\<rparr> of
                  (h3, this) \<Rightarrow> bind_e (update n h3 this d) (\<lambda>h4. Inr (h4, this)))))"




text \<open>\<open>this.errors\<close> as the receiver of a method call: anything but an \<open>Errors\<close> instance
  makes the call a \<open>TypeError\<close>.\<close>

definition the_errors :: "heap \<Rightarrow> addr \<Rightarrow> error + addr" where
  "the_errors h this =
     (case get_own h this ''errors'' of
        Ref e \<Rightarrow> if e < length h \<and> cls (h ! e) = ErrorsObject then Inr e else Inl TypeError
      | Prim p \<Rightarrow> Inl TypeError)"

definition startProcessing :: "heap \<Rightarrow> addr \<Rightarrow> error + heap" where
  "startProcessing h this =
     bind_e (the_errors h this) (\<lambda>e.
       Inr (heap_write (heap_write (Errors_clear h e) this ''busy'' (Prim (JBool True)))
              this ''successful'' (Prim (JBool False))))"


text \<open>\<open>extractErrors(response)\<close>: the ordered fallback, every branch chosen by the
  truthiness of what it reads.\<close>

definition extractErrors :: "statics \<Rightarrow> heap \<Rightarrow> val \<Rightarrow> error + heap \<times> addr" where
  "extractErrors st h response =
     bind_e (get_prop h response ''data'') (\<lambda>d.
       if \<not> truthy d \<or> \<not> typeof_object d
       then Inr (alloc h \<lparr>cls = PlainObject,
                          props = [(''error'', Prim (JStr (errorMessage st)))]\<rparr>)
       else bind_e (get_prop h d ''errors'') (\<lambda>es.
         if truthy es
         then Inr (alloc h \<lparr>cls = PlainObject, props = object_assign [] (own_enum h es)\<rparr>)
         else bind_e (get_prop h d ''message'') (\<lambda>m.
           if truthy m
           then Inr (alloc h \<lparr>cls = PlainObject, props = [(''error'', m)]\<rparr>)
           else Inr (alloc h \<lparr>cls = PlainObject, props = object_assign [] (own_enum h d)\<rparr>))))"


subsection \<open>Route resolution\<close>











subsection \<open>Submission\<close>

definition to_lower :: "char \<Rightarrow> char" where
  "to_lower c =
     (let n = (of_char c :: nat) in if 65 \<le> n \<and> n \<le> 90 then char_of (n + 32) else c)"

definition toLowerCase :: "string \<Rightarrow> string" where
  "toLowerCase s = map to_lower s"

definition slot :: "string \<Rightarrow> string" where
  "slot method = (if toLowerCase method = ''get'' then ''params'' else ''data'')"

text \<open>\<open>{ ...this.data(), ...(config[slot] || {}) }\<close>: the field data, overlaid with what
  the configuration already holds in the slot.\<close>

definition merged :: "heap \<Rightarrow> addr \<Rightarrow> addr \<Rightarrow> string \<Rightarrow> heap \<times> addr" where
  "merged h this config s =
     (case data h this of
        (h1, d) \<Rightarrow>
          let c = get_own h1 config s in
          alloc h1 \<lparr>cls = PlainObject,
                    props = object_assign (object_assign [] (props (h1 ! d)))
                              (if truthy c then own_enum h1 c else [])\<rparr>)"

text \<open>The synchronous part of \<open>submit\<close>, up to the promise: an exception here is thrown to
  the caller.\<close>

definition prepare :: "heap \<Rightarrow> addr \<Rightarrow> string \<Rightarrow> addr \<Rightarrow> error + heap" where
  "prepare h this method config =
     bind_e (startProcessing h this) (\<lambda>h1.
       case merged h1 this config (slot method) of
         (h2, p) \<Rightarrow> Inr (heap_write h2 config (slot method) (Ref p)))"






section \<open>Notions used in the statements\<close>

subsection \<open>Returned objects\<close>

text \<open>The properties of the object an operation returns, and the tree it denotes.\<close>

definition returned_props :: "error + heap \<times> addr \<Rightarrow> props option" where
  "returned_props r = (case r of Inl e \<Rightarrow> None | Inr (h, a) \<Rightarrow> Some (props (h ! a)))"


text \<open>The fallback of the specification, as its words read: a branch is taken when the
  body \<^emph>\<open>has\<close> the field. It is stated next to \<open>extractErrors\<close> to compare the two.\<close>

definition has_field :: "heap \<Rightarrow> addr \<Rightarrow> string \<Rightarrow> bool" where
  "has_field h b k = (k \<in> set (map fst (props (h ! b))))"

definition extractErrors_by_presence :: "statics \<Rightarrow> heap \<Rightarrow> val \<Rightarrow> props" where
  "extractErrors_by_presence st h body =
     (case body of
        Prim p \<Rightarrow> [(''error'', Prim (JStr (errorMessage st)))]
      | Ref b \<Rightarrow>
          if has_field h b ''errors'' then object_assign [] (own_enum h (get_own h b ''errors''))
          else if has_field h b ''message'' then [(''error'', get_own h b ''message'')]
          else object_assign [] (props (h ! b)))"




subsection \<open>Regions of the heap\<close>

text \<open>
  A value is \<open>allocated\<close> when it does not refer beyond the heap. A set of addresses is
  \<open>closed\<close> when its objects refer to its own objects only, so that what is reachable from
  it stays inside; two heaps \<open>agree\<close> on a set when they hold the same objects there. A
  heap \<open>extends\<close> another \<open>except\<close> at one object when it may have more objects and may
  differ at that object, and nowhere else.
\<close>

definition allocated :: "heap \<Rightarrow> val \<Rightarrow> bool" where
  "allocated h v = (case v of Prim p \<Rightarrow> True | Ref a \<Rightarrow> a < length h)"

definition within :: "val \<Rightarrow> addr set \<Rightarrow> bool" where
  "within v R = (case v of Prim p \<Rightarrow> True | Ref a \<Rightarrow> a \<in> R)"

definition closed :: "heap \<Rightarrow> addr set \<Rightarrow> bool" where
  "closed h R = (\<forall>a \<in> R. a < length h \<and> (\<forall>v \<in> snd ` set (props (h ! a)). within v R))"

definition agree :: "addr set \<Rightarrow> heap \<Rightarrow> heap \<Rightarrow> bool" where
  "agree R h g = (\<forall>a \<in> R. a < length g \<and> g ! a = h ! a)"



subsection \<open>The baseline of a form\<close>







subsection \<open>Concrete states\<close>

text \<open>A response whose body carries \<open>errors: null\<close> next to a message.\<close>

definition response_heap :: heap where
  "response_heap =
     [\<lparr>cls = PlainObject, props = [(''data'', Ref 1)]\<rparr>,
      \<lparr>cls = PlainObject,
        props = [(''errors'', Prim JNull), (''message'', Prim (JStr ''Not authorized''))]\<rparr>]"

text \<open>A form (at address 3) with one field, and a request configuration (at address 4)
  that already holds query parameters; the states a submission of it goes through; a
  transport that rejects with a validation error.\<close>

definition form_heap :: heap where
  "form_heap =
     [\<lparr>cls = PlainObject, props = [(''name'', Prim (JStr ''Ann''))]\<rparr>,
      \<lparr>cls = PlainObject, props = []\<rparr>,
      \<lparr>cls = ErrorsObject, props = [(''messages'', Ref 1)]\<rparr>,
      \<lparr>cls = FormObject,
        props = [(''originalData'', Ref 0), (''busy'', Prim (JBool False)),
                 (''successful'', Prim (JBool False)), (''errors'', Ref 2),
                 (''name'', Prim (JStr ''Ann''))]\<rparr>,
      \<lparr>cls = PlainObject, props = [(''params'', Ref 5)]\<rparr>,
      \<lparr>cls = PlainObject,
        props = [(''page'', Prim (JNum 2)), (''name'', Prim (JStr ''Bob''))]\<rparr>]"


definition posted_heap :: heap where
  "posted_heap = projr (prepare form_heap 3 ''post'' 4)"




text \<open>A pristine form (at address 5) next to the data \<open>{ address: { city: 'Oslo' } }\<close> (at
  address 1); the heap after \<open>update\<close> with that data; and the heap after the caller then
  wrote \<open>city = 'Rome'\<close> into the address object and \<open>null\<close> into the field.\<close>

definition blank_form_heap :: heap where
  "blank_form_heap =
     [\<lparr>cls = PlainObject, props = [(''city'', Prim (JStr ''Oslo''))]\<rparr>,
      \<lparr>cls = PlainObject, props = [(''address'', Ref 0)]\<rparr>,
      \<lparr>cls = PlainObject, props = []\<rparr>,
      \<lparr>cls = PlainObject, props = []\<rparr>,
      \<lparr>cls = ErrorsObject, props = [(''messages'', Ref 3)]\<rparr>,
      \<lparr>cls = FormObject,
        props = [(''originalData'', Ref 2), (''busy'', Prim (JBool False)),
                 (''successful'', Prim (JBool False)), (''errors'', Ref 4)]\<rparr>]"

definition updated_heap :: heap where
  "updated_heap = projr (update 3 blank_form_heap 5 (Ref 1))"



text \<open>The same data alone; the form (at address 5) constructed from it; and the heap after
  \<open>v.address.city = 'Rome'\<close> on the mapping \<open>v\<close> that \<open>data()\<close> returned.\<close>

definition address_heap :: heap where
  "address_heap =
     [\<lparr>cls = PlainObject, props = [(''city'', Prim (JStr ''Oslo''))]\<rparr>,
      \<lparr>cls = PlainObject, props = [(''address'', Ref 0)]\<rparr>]"

definition address_form_heap :: heap where
  "address_form_heap = fst (projr (new_Form 3 address_heap (Ref 1)))"

definition shared_write :: heap where
  "shared_write = heap_write (fst (data address_form_heap 5)) 0 ''city'' (Prim (JStr ''Rome''))"




section \<open>Property lists\<close>

lemma map_of_set_prop: "map_of (set_prop ps k v) = (map_of ps)(k \<mapsto> v)"
  by (induction ps) (auto simp: fun_eq_iff)

lemma set_prop_fresh: "k \<notin> fst ` set ps \<Longrightarrow> set_prop ps k v = ps @ [(k, v)]"
  by (induction ps) auto


lemma fst_set_prop: "fst ` set (set_prop ps k v) = insert k (fst ` set ps)"
  by (simp add: dom_map_of_conv_image_fst [symmetric] map_of_set_prop)

lemma distinct_set_prop:
  "distinct (map fst ps) \<Longrightarrow> distinct (map fst (set_prop ps k v))"
  by (induction ps) (auto simp: fst_set_prop)

lemma object_assign_Nil [simp]: "object_assign t [] = t"
  by (simp add: object_assign_def)

lemma object_assign_Cons: "object_assign t ((k, v) # s) = object_assign (set_prop t k v) s"
  by (simp add: object_assign_def)


lemma object_assign_append:
  "distinct (map fst (t @ s)) \<Longrightarrow> object_assign t s = t @ s"
proof (induction s arbitrary: t)
  case Nil
  then show ?case by simp
next
  case (Cons p s)
  obtain k v where p: "p = (k, v)" by (cases p)
  from Cons.prems have fresh: "k \<notin> fst ` set t" by (auto simp: p)
  from Cons.prems have "distinct (map fst ((t @ [(k, v)]) @ s))" by (auto simp: p)
  from Cons.IH [OF this] show ?case
    by (simp add: p object_assign_Cons set_prop_fresh [OF fresh])
qed

lemma object_assign_empty: "distinct (map fst ps) \<Longrightarrow> object_assign [] ps = ps"
  using object_assign_append [of "[]" ps] by simp





subsection \<open>The reduction of \<open>data()\<close>\<close>



lemma fold_data_lookup:
  "distinct (map fst acc) \<Longrightarrow>
   map_of (fold (\<lambda>key d. set_prop (object_assign [] d) key (f key)) ks acc) k
     = (if k \<in> set ks then Some (f k) else map_of acc k)"
proof (induction ks arbitrary: acc)
  case Nil
  then show ?case by simp
next
  case (Cons key ks)
  have "distinct (map fst (set_prop (object_assign [] acc) key (f key)))"
    using Cons.prems by (simp add: distinct_set_prop object_assign_empty)
  from Cons.IH [OF this] show ?case
    using Cons.prems by (simp add: object_assign_empty map_of_set_prop)
qed

lemma map_of_data_props:
  "map_of (data_props h this) k
     = (if k \<in> set (keys h this) then Some (get_own h this k) else None)"
  unfolding data_props_def using fold_data_lookup [of "[]"] by simp



section \<open>Heap writes\<close>

lemma length_heap_write [simp]: "length (heap_write h a k v) = length h"
  by (simp add: heap_write_def)

lemma nth_heap_write:
  "heap_write h a k v ! b =
     (if b = a \<and> a < length h then (h ! a)\<lparr>props := set_prop (props (h ! a)) k v\<rparr> else h ! b)"
  by (cases "a < length h") (simp_all add: heap_write_def list_update_beyond)

lemma get_own_heap_write:
  "get_own (heap_write h a k v) b k' =
     (if b = a \<and> a < length h \<and> k' = k then v else get_own h b k')"
  by (simp add: get_own_def nth_heap_write map_of_set_prop)

lemma cls_heap_write [simp]: "cls (heap_write h a k v ! b) = cls (h ! b)"
  by (simp add: nth_heap_write)

lemma get_own_append [simp]: "b < length h \<Longrightarrow> get_own (h @ ext) b k = get_own h b k"
  by (simp add: get_own_def nth_append)






section \<open>Frames\<close>

lemma within_simps [simp]: "within (Prim p) R" "within (Ref a) R = (a \<in> R)"
  by (simp_all add: within_def)


lemma closed_props_within:
  "closed h R \<Longrightarrow> a \<in> R \<Longrightarrow> v \<in> snd ` set (props (h ! a)) \<Longrightarrow> within v R"
  by (auto simp: closed_def)

lemma closed_length: "closed h R \<Longrightarrow> a \<in> R \<Longrightarrow> a < length h"
  by (simp add: closed_def)








text \<open>What a value denotes depends on the objects of a closed set around it only.\<close>

lemma reify_frame_aux:
  "closed h R \<Longrightarrow> agree R h g \<Longrightarrow> within v R \<Longrightarrow> reify n g v = reify n h v"
  "closed h R \<Longrightarrow> agree R h g \<Longrightarrow> \<forall>v \<in> snd ` set ps. within v R \<Longrightarrow>
     reify_props n g ps = reify_props n h ps"
proof (induction n h v and n h ps rule: reify_reify_props.induct)
  case (1 n h p)
  then show ?case by simp
next
  case (2 h a)
  then show ?case by simp
next
  case (3 n h a)
  from "3.prems" have aR: "a \<in> R" by simp
  with "3.prems" have lt: "a < length h" "a < length g" and eq: "g ! a = h ! a"
    by (auto simp: closed_def agree_def)
  have "\<forall>v \<in> snd ` set (props (h ! a)). within v R"
    using closed_props_within [OF "3.prems"(1) aR] by auto
  from "3.IH" [OF lt(1) "3.prems"(1,2) this] show ?case using lt eq by simp
next
  case (4 n h)
  then show ?case by simp
next
  case (5 n h k v ps)
  from "5.prems" have v: "within v R" and ps: "\<forall>v \<in> snd ` set ps. within v R" by auto
  from "5.IH"(1) [OF "5.prems"(1,2) v] have rv: "reify n g v = reify n h v" .
  show ?case
  proof (cases "reify n h v")
    case None
    with rv show ?thesis by simp
  next
    case (Some t)
    from "5.IH"(2) [OF Some "5.prems"(1,2) ps] rv Some show ?thesis by simp
  qed
qed

lemma reify_frame:
  "closed h R \<Longrightarrow> agree R h g \<Longrightarrow> within v R \<Longrightarrow> reify n g v = reify n h v"
  by (rule reify_frame_aux)











section \<open>The deep copy\<close>




section \<open>Submission: the steps\<close>

lemma startProcessing_Inr:
  assumes "startProcessing h this = Inr h1"
  obtains e where "the_errors h this = Inr e"
    and "h1 = heap_write (heap_write (heap_write (h @ [\<lparr>cls = PlainObject, props = []\<rparr>])
                 e ''messages'' (Ref (length h))) this ''busy'' (Prim (JBool True)))
               this ''successful'' (Prim (JBool False))"
  using assms
  by (auto simp: startProcessing_def bind_e_def Errors_clear_def alloc_def split: sum.splits)

lemma length_startProcessing:
  "startProcessing h this = Inr h1 \<Longrightarrow> length h1 = Suc (length h)"
  by (erule startProcessing_Inr) simp




section \<open>Route resolution: the steps\<close>





section \<open>\<open>reset\<close>: the loop\<close>







section \<open>\<open>update\<close> and the constructor\<close>




section \<open>The claims\<close>

subsection \<open>The boundary of \<open>data()\<close>\<close>

text \<open>
  Claim C1, as amended. For every container state, \<open>data()\<close> returns a newly allocated
  mapping \<open>v\<close> that holds exactly the bound keys, each with the container's current field
  value itself: a shallow copy, references shared. Changing \<open>v\<close> itself in any way
  (adding, replacing or removing its entries) leaves every object that existed before the
  call as it was, the container's fields and its baseline among them. A structure nested
  in a value of \<open>v\<close> is the container's own; mutating it leaves the baseline as it was
  whenever the mutated object is none of the baseline's objects.
\<close>

theorem data_shallow_copy:
  assumes "data h this = (h', v)"
  shows "v = length h \<and> h' = h @ [h' ! v]
     \<and> fst ` set (props (h' ! v)) = set (keys h this)
     \<and> (\<forall>key \<in> set (keys h this). get_own h' v key = get_own h this key)
     \<and> (\<forall>a < length h. (h'[v := ob]) ! a = h ! a)
     \<and> (closed h B \<and> within (get_own h this ''originalData'') B \<and> x \<notin> B \<and> x < length h \<longrightarrow>
          reify n (h'[x := ob']) (get_own h this ''originalData'')
            = reify n h (get_own h this ''originalData''))"
proof -
  from assms have v: "v = length h"
    and h': "h' = h @ [\<lparr>cls = PlainObject, props = data_props h this\<rparr>]"
    by (auto simp: data_def alloc_def)
  have p: "props (h' ! v) = data_props h this" by (simp add: v h')
  have "dom (map_of (data_props h this)) = set (keys h this)"
    by (auto simp: map_of_data_props dom_def)
  then have ks: "fst ` set (props (h' ! v)) = set (keys h this)"
    by (simp add: p dom_map_of_conv_image_fst)
  have vals: "\<forall>key \<in> set (keys h this). get_own h' v key = get_own h this key"
    by (simp add: get_own_def p map_of_data_props)
  have frame: "\<forall>a < length h. (h'[v := ob]) ! a = h ! a"
    by (simp add: v h' nth_append)
  have base: "reify n (h'[x := ob']) (get_own h this ''originalData'')
            = reify n h (get_own h this ''originalData'')"
    if c: "closed h B" and w: "within (get_own h this ''originalData'') B"
      and x: "x \<notin> B" "x < length h"
  proof -
    have "agree B h (h'[x := ob'])"
      unfolding agree_def
    proof (intro ballI conjI)
      fix a assume a: "a \<in> B"
      with c have al: "a < length h" by (rule closed_length)
      then show "a < length (h'[x := ob'])" by (simp add: h')
      from a x have "a \<noteq> x" by auto
      with al show "h'[x := ob'] ! a = h ! a" by (simp add: h' nth_append)
    qed
    from reify_frame [OF c this w] show ?thesis .
  qed
  from v h' ks vals frame base show ?thesis by simp
qed

theorem data_shallow_copy_witness:
  "snd (data updated_heap 5) = 9
   \<and> get_own (fst (data updated_heap 5)) 9 ''address'' = Ref 0
   \<and> ((fst (data updated_heap 5))[9 := \<lparr>cls = PlainObject, props = []\<rparr>]) ! 5 = updated_heap ! 5
   \<and> reify 3 ((fst (data updated_heap 5))
                 [0 := \<lparr>cls = PlainObject, props = [(''city'', Prim (JStr ''Rome''))]\<rparr>]) (Ref 8)
       = Some (TObj PlainObject [(''address'', TObj PlainObject [(''city'', TPrim (JStr ''Oslo''))])])"
proof -
  let ?empty = "\<lparr>cls = PlainObject, props = []\<rparr>"
  let ?rome = "\<lparr>cls = PlainObject, props = [(''city'', Prim (JStr ''Rome''))]\<rparr>"
  have d: "data updated_heap 5 = (fst (data updated_heap 5), snd (data updated_heap 5))" by simp
  have len: "length updated_heap = 9" by code_simp
  have k: "''address'' \<in> set (keys updated_heap 5)" by code_simp
  have g: "get_own updated_heap 5 ''address'' = Ref 0" by code_simp
  have o: "get_own updated_heap 5 ''originalData'' = Ref 8" by code_simp
  have c: "closed updated_heap {6, 8}" unfolding closed_def by code_simp
  have w: "within (get_own updated_heap 5 ''originalData'') {6, 8}" by (simp add: o)
  have r: "reify 3 updated_heap (Ref 8)
      = Some (TObj PlainObject [(''address'', TObj PlainObject [(''city'', TPrim (JStr ''Oslo''))])])"
    by code_simp
  note t = data_shallow_copy [OF d, of ?empty "{6, 8}" 0 3 ?rome]
  from t have v: "snd (data updated_heap 5) = 9" by (simp add: len)
  from t k have "get_own (fst (data updated_heap 5)) (snd (data updated_heap 5)) ''address''
      = get_own updated_heap 5 ''address''" by blast
  with v g have a: "get_own (fst (data updated_heap 5)) 9 ''address'' = Ref 0" by simp
  from t have "\<forall>a < length updated_heap.
      ((fst (data updated_heap 5))[snd (data updated_heap 5) := ?empty]) ! a = updated_heap ! a"
    by blast
  from this [rule_format, of 5] v len
  have b: "((fst (data updated_heap 5))[9 := ?empty]) ! 5 = updated_heap ! 5" by simp
  from t c w len have "reify 3 ((fst (data updated_heap 5))[0 := ?rome])
      (get_own updated_heap 5 ''originalData'') = reify 3 updated_heap (get_own updated_heap 5 ''originalData'')"
    by simp
  with o r have e: "reify 3 ((fst (data updated_heap 5))[0 := ?rome]) (Ref 8)
      = Some (TObj PlainObject [(''address'', TObj PlainObject [(''city'', TPrim (JStr ''Oslo''))])])"
    by simp
  from v a b e show ?thesis by (intro conjI)
qed

text \<open>The claim as stated fails: on the form constructed from \<open>{ address: { city: 'Oslo'
  } }\<close>, the mapping that \<open>data()\<close> returns holds the form's own address object, and
  writing \<open>city = 'Rome'\<close> into it changes what the form's field \<open>address\<close> denotes.\<close>

theorem data_nested_mutation_counterexample:
  "new_Form 3 address_heap (Ref 1) = Inr (address_form_heap, 5)
   \<and> get_own (fst (data address_form_heap 5)) (snd (data address_form_heap 5)) ''address'' = Ref 0
   \<and> reify 3 shared_write (get_own shared_write 5 ''address'')
       \<noteq> reify 3 address_form_heap (get_own address_form_heap 5 ''address'')"
  by code_simp

subsection \<open>Error extraction\<close>

text \<open>
  Claim C2, as amended. For every response \<open>r\<close>, \<open>extractErrors\<close> returns a new object and
  follows the ordered fallback, the first matching branch winning: if the body
  \<open>r.data\<close> is missing or not a structured object, the result is \<open>{ error: <default
  message> }\<close>; else if the body's \<open>errors\<close> is truthy, a shallow copy of its contents;
  else if the body's \<open>message\<close> is truthy, \<open>{ error: <that message> }\<close>; else a shallow
  copy of the whole body. The branches are chosen by truthiness, not by the presence of
  the field.
\<close>

theorem extractErrors_fallback:
  "extractErrors st h (Ref r) =
     Inr (h @ [\<lparr>cls = PlainObject,
                props =
                  (case get_own h r ''data'' of
                     Prim p \<Rightarrow> [(''error'', Prim (JStr (errorMessage st)))]
                   | Ref b \<Rightarrow>
                       if truthy (get_own h b ''errors'')
                       then object_assign [] (own_enum h (get_own h b ''errors''))
                       else if truthy (get_own h b ''message'')
                       then [(''error'', get_own h b ''message'')]
                       else object_assign [] (props (h ! b)))\<rparr>], length h)"
proof (cases "get_own h r ''data''")
  case (Prim p)
  then show ?thesis
    by (cases p) (simp_all add: extractErrors_def bind_e_def alloc_def)
next
  case (Ref b)
  then show ?thesis
    by (simp add: extractErrors_def bind_e_def alloc_def)
qed

theorem extractErrors_fallback_witness:
  "returned_props (extractErrors default_statics response_heap (Ref 0))
     = Some [(''error'', Prim (JStr ''Not authorized''))]"
  using extractErrors_fallback [of default_statics response_heap 0]
  by (simp add: returned_props_def response_heap_def get_own_def)

text \<open>The fallback as the specification words it (a body that \<^emph>\<open>has\<close> an \<open>errors\<close>
  field yields a copy of that field) differs from the code on the body
  \<open>{ errors: null, message: 'Not authorized' }\<close>: the code answers with the message.\<close>

theorem extractErrors_presence_counterexample:
  "returned_props (extractErrors default_statics response_heap (Ref 0))
     \<noteq> Some (extractErrors_by_presence default_statics response_heap
                (get_own response_heap 0 ''data''))"
  by (simp add: returned_props_def extractErrors_def extractErrors_by_presence_def has_field_def
      response_heap_def get_own_def bind_e_def alloc_def object_assign_def)

subsection \<open>Submission\<close>





subsection \<open>\<open>update\<close>, \<open>reset\<close> and the constructor\<close>








subsection \<open>Route resolution\<close>




subsection \<open>\<open>reset\<close> and the baseline\<close>



subsection \<open>The configuration object\<close>

text \<open>
  Claim C9. For every call \<open>submit(method, url, config)\<close> whose synchronous part
  returns: the caller's \<open>config\<close> object is changed in place. Before the request is
  built, the merged payload, a newly allocated object, is written into \<open>config.params\<close>
  (for \<open>get\<close>) or \<open>config.data\<close> (for every other method), so the slot no longer holds
  what the caller put there and the object differs from what it was.
\<close>

theorem submit_mutates_config:
  assumes prep: "prepare h this method config = Inr h3"
    and cfg: "config < length h"
    and old: "allocated h (get_own h config (slot method))"
  shows "\<exists>h1 h2 p. startProcessing h this = Inr h1
     \<and> merged h1 this config (slot method) = (h2, p)
     \<and> h3 = heap_write h2 config (slot method) (Ref p)
     \<and> get_own h3 config (if toLowerCase method = ''get'' then ''params'' else ''data'') = Ref p
     \<and> get_own h3 config (slot method) \<noteq> get_own h config (slot method)
     \<and> h3 ! config \<noteq> h ! config"
proof -
  from prep obtain h1 where sp: "startProcessing h this = Inr h1"
    by (auto simp: prepare_def bind_e_def split: sum.splits)
  obtain h2 p where m: "merged h1 this config (slot method) = (h2, p)"
    by (cases "merged h1 this config (slot method)")
  have len: "length h1 = Suc (length h)" by (rule length_startProcessing [OF sp])
  from m have p: "p = Suc (length h1)" and len2: "length h2 = Suc (Suc (length h1))"
    by (auto simp: merged_def data_def alloc_def Let_def)
  from prep sp m have h3: "h3 = heap_write h2 config (slot method) (Ref p)"
    by (simp add: prepare_def bind_e_def)
  have new: "get_own h3 config (slot method) = Ref p"
    using cfg len len2 by (simp add: h3 get_own_heap_write)
  have diff: "get_own h config (slot method) \<noteq> Ref p"
    using old p len by (auto simp: allocated_def split: val.splits)
  have "h3 ! config \<noteq> h ! config"
  proof
    assume "h3 ! config = h ! config"
    then have "get_own h3 config (slot method) = get_own h config (slot method)"
      by (simp add: get_own_def)
    with new diff show False by simp
  qed
  with sp m h3 new diff show ?thesis by (simp add: slot_def)
qed

theorem submit_mutates_config_witness:
  "prepare form_heap 3 ''post'' 4 = Inr posted_heap
   \<and> (4::nat) < length form_heap
   \<and> allocated form_heap (get_own form_heap 4 (slot ''post''))
   \<and> get_own form_heap 4 ''data'' = Prim JUndefined
   \<and> get_own posted_heap 4 ''data'' = Ref 8
   \<and> posted_heap ! 4 \<noteq> form_heap ! 4"
proof -
  have a: "prepare form_heap 3 ''post'' 4 = Inr posted_heap" by code_simp
  have b: "(4::nat) < length form_heap" by code_simp
  have c: "allocated form_heap (get_own form_heap 4 (slot ''post''))" by code_simp
  have d: "get_own form_heap 4 ''data'' = Prim JUndefined" by code_simp
  have e: "get_own posted_heap 4 ''data'' = Ref 8" by code_simp
  from submit_mutates_config [OF a b c] have "posted_heap ! 4 \<noteq> form_heap ! 4" by blast
  with a b c d e show ?thesis by (intro conjI)
qed

subsection \<open>Truthiness in error extraction\<close>

text \<open>
  Claim C10. The branches of \<open>extractErrors\<close> test truthiness, not the presence of a key:
  for every structured body whose \<open>errors\<close> property exists but is falsy, the \<open>errors\<close>
  branch is skipped, and the result is \<open>{ error: message }\<close> when the message is truthy
  and a shallow copy of the whole body otherwise.
\<close>

theorem extractErrors_falsy_errors:
  assumes "map_of (props (h ! b)) ''errors'' = Some es" and "\<not> truthy es"
    and "get_own h r ''data'' = Ref b"
  shows "extractErrors st h (Ref r) =
     Inr (h @ [\<lparr>cls = PlainObject,
                props = (if truthy (get_own h b ''message'')
                         then [(''error'', get_own h b ''message'')]
                         else object_assign [] (props (h ! b)))\<rparr>], length h)"
  using assms by (simp add: extractErrors_def bind_e_def alloc_def get_own_def)

theorem extractErrors_falsy_errors_witness:
  "map_of (props (response_heap ! 1)) ''errors'' = Some (Prim JNull) \<and> \<not> truthy (Prim JNull)
   \<and> get_own response_heap 0 ''data'' = Ref 1
   \<and> extractErrors default_statics response_heap (Ref 0) =
       Inr (response_heap
              @ [\<lparr>cls = PlainObject, props = [(''error'', Prim (JStr ''Not authorized''))]\<rparr>], 2)"
proof -
  have a: "map_of (props (response_heap ! 1)) ''errors'' = Some (Prim JNull)"
    by (simp add: response_heap_def)
  have b: "\<not> truthy (Prim JNull)" by simp
  have c: "get_own response_heap 0 ''data'' = Ref 1" by (simp add: response_heap_def get_own_def)
  from extractErrors_falsy_errors [OF a b c, of default_statics] a b c show ?thesis
    by (simp add: response_heap_def get_own_def)
qed

end
